theory Spec2Isabelle
  imports Complex_Main
begin

section \<open>Tensors and the library operations the loss is built from\<close>

text \<open>
  The module \<^verbatim>\<open>contrastive_loss_with_temperature.py\<close> computes on float tensors.
  Tensor entries are taken as real numbers: rounding, overflow to infinity and nan
  parameters are outside this development. The one nan kept is the mean over an empty
  batch, which \<^verbatim>\<open>F.cross_entropy\<close> returns for a batch of no rows.

  A two-dimensional tensor carries its second dimension beside its rows, so that a
  tensor of no rows still has a width, as in torch. Every exception of the library is
  a value \<open>Inl e\<close>.
\<close>

datatype error = RuntimeError | IndexError | ValueError

datatype scalar = Val real | NaN

record tensor2 =
  ncols :: nat
  rows :: "real list list"

definition wf_tensor2 :: "tensor2 \<Rightarrow> bool" where
  "wf_tensor2 t = list_all (\<lambda>r. length r = ncols t) (rows t)"

text \<open>\<^verbatim>\<open>t.size(0)\<close>\<close>

definition size0 :: "tensor2 \<Rightarrow> nat" where
  "size0 t = length (rows t)"

text \<open>\<^verbatim>\<open>torch.arange(n)\<close>\<close>

definition arange :: "nat \<Rightarrow> nat list" where
  "arange n = [0..<n]"

text \<open>\<^verbatim>\<open>torch.zeros_like(t)\<close>\<close>

definition zeros_like :: "tensor2 \<Rightarrow> tensor2" where
  "zeros_like t = t\<lparr>rows := map (map (\<lambda>_. 0)) (rows t)\<rparr>"

text \<open>\<^verbatim>\<open>t.transpose(0, 1)\<close>\<close>

definition transpose01 :: "tensor2 \<Rightarrow> tensor2" where
  "transpose01 t =
     \<lparr>ncols = length (rows t),
      rows = map (\<lambda>j. map (\<lambda>r. r ! j) (rows t)) [0..<ncols t]\<rparr>"

text \<open>
  \<^verbatim>\<open>torch.matmul(a, b)\<close> on two-dimensional tensors raises when the inner
  dimensions differ.
\<close>

definition matmul :: "tensor2 \<Rightarrow> tensor2 \<Rightarrow> error + tensor2" where
  "matmul a b =
     (if ncols a \<noteq> length (rows b) then Inl RuntimeError
      else Inr \<lparr>ncols = ncols b,
                rows = map (\<lambda>r. map (\<lambda>j. \<Sum>k\<leftarrow>[0..<ncols a]. r ! k * (rows b ! k ! j))
                                      [0..<ncols b])
                           (rows a)\<rparr>)"

text \<open>\<^verbatim>\<open>t * s\<close> for a scalar \<open>s\<close>\<close>

definition mul_scalar :: "tensor2 \<Rightarrow> real \<Rightarrow> tensor2" where
  "mul_scalar t s = t\<lparr>rows := map (map (\<lambda>x. x * s)) (rows t)\<rparr>"

text \<open>
  \<^verbatim>\<open>torch.cat(ts)\<close> along dimension 0 raises on an empty sequence and on pieces of
  different widths.
\<close>

definition cat :: "tensor2 list \<Rightarrow> error + tensor2" where
  "cat ts =
     (case ts of
        [] \<Rightarrow> Inl RuntimeError
      | t # rest \<Rightarrow>
          if list_all (\<lambda>u. ncols u = ncols t) rest
          then Inr \<lparr>ncols = ncols t, rows = concat (map rows ts)\<rparr>
          else Inl RuntimeError)"

text \<open>
  Indexing with a boolean mask, \<^verbatim>\<open>t[mask]\<close>: the mask must be as long as the
  first dimension, and the kept positions stay in their order.
\<close>

definition index_mask1 :: "'a list \<Rightarrow> bool list \<Rightarrow> error + 'a list" where
  "index_mask1 xs msk =
     (if length msk \<noteq> length xs then Inl IndexError
      else Inr (map snd (filter fst (zip msk xs))))"

definition index_mask :: "tensor2 \<Rightarrow> bool list \<Rightarrow> error + tensor2" where
  "index_mask t msk =
     (case index_mask1 (rows t) msk of
        Inl e \<Rightarrow> Inl e
      | Inr rs \<Rightarrow> Inr (t\<lparr>rows := rs\<rparr>))"

text \<open>
  \<^verbatim>\<open>F.cross_entropy(logits, labels)\<close> with its default mean reduction: row \<open>i\<close>
  contributes the negative log-softmax of its entry at \<open>labels[i]\<close>. The batch sizes
  must agree and every label must be a class index; the mean over no rows is nan.
\<close>

definition nll_row :: "real list \<Rightarrow> nat \<Rightarrow> real" where
  "nll_row xs l = ln (\<Sum>x\<leftarrow>xs. exp x) - xs ! l"

definition cross_entropy :: "tensor2 \<Rightarrow> nat list \<Rightarrow> error + scalar" where
  "cross_entropy logits labels =
     (if size0 logits \<noteq> length labels then Inl ValueError
      else if \<not> list_all (\<lambda>l. l < ncols logits) labels then Inl IndexError
      else if labels = [] then Inr NaN
      else Inr (Val ((\<Sum>(r, l)\<leftarrow>zip (rows logits) labels. nll_row r l)
                      / real (length labels))))"

text \<open>Scalar tensor arithmetic: nan is absorbing.\<close>

fun add_scalar :: "scalar \<Rightarrow> scalar \<Rightarrow> scalar" where
  "add_scalar (Val a) (Val b) = Val (a + b)"
| "add_scalar _ _ = NaN"

fun div_scalar :: "scalar \<Rightarrow> real \<Rightarrow> scalar" where
  "div_scalar (Val a) c = Val (a / c)"
| "div_scalar NaN c = NaN"

section \<open>The process group\<close>

text \<open>
  \<^verbatim>\<open>torch.distributed\<close> is either not initialised (\<open>None\<close>) or a group of
  \<open>world_size\<close> workers, of which this one is \<open>rank\<close>. The two collectives of one
  call receive from rank \<open>k\<close> the tensors \<open>peer_images k\<close> and \<open>peer_texts k\<close>;
  the entry of the own rank is what this worker sends. \<^verbatim>\<open>all_gather\<close> returns
  the pieces of all ranks in rank order; the variant without backpropagation writes
  them into the output buffers it is given. Gradients are not modelled. The library
  leaves open what the collective does when the workers' tensors differ in shape; the
  model then hands over the pieces as they were sent, and the properties of a group
  that depend on the shapes assume them equal.
\<close>

record process_group =
  world_size :: nat
  rank :: nat
  peer_images :: "nat \<Rightarrow> tensor2"
  peer_texts :: "nat \<Rightarrow> tensor2"

definition gathered_pieces :: "process_group \<Rightarrow> (nat \<Rightarrow> tensor2) \<Rightarrow> tensor2 \<Rightarrow> tensor2 list" where
  "gathered_pieces pg peers x =
     map (\<lambda>k. if k = rank pg then x else peers k) [0..<world_size pg]"

definition all_gather_with_backprop ::
  "process_group \<Rightarrow> (nat \<Rightarrow> tensor2) \<Rightarrow> tensor2 \<Rightarrow> tensor2 list" where
  "all_gather_with_backprop pg peers x = gathered_pieces pg peers x"

definition all_gather_no_backprop ::
  "process_group \<Rightarrow> (nat \<Rightarrow> tensor2) \<Rightarrow> tensor2 list \<Rightarrow> tensor2 \<Rightarrow> tensor2 list" where
  "all_gather_no_backprop pg peers bufs x =
     map (\<lambda>(buf, piece). piece) (zip bufs (gathered_pieces pg peers x))"

section \<open>The loss\<close>

text \<open>
  \<^verbatim>\<open>ContrastiveLossOutput\<close> is a dataclass that inherits from
  \<^verbatim>\<open>OrderedDict\<close>: an object with five attributes and with the entries of the
  inherited mapping, here \<open>od_items\<close>, which is what iterating or unpacking the
  object goes through. The constructor that \<^verbatim>\<open>@dataclass\<close> generates assigns
  the five attributes and stores no key in the mapping.
\<close>

datatype pyval = Scalar scalar | Tensor tensor2

record ContrastiveLossOutput =
  od_items :: "(string \<times> pyval) list"
  loss :: scalar
  image_logits :: tensor2
  text_logits :: tensor2
  image_loss :: scalar
  text_loss :: scalar

definition gather_embeddings_and_labels ::
  "process_group option \<Rightarrow> tensor2 \<Rightarrow> tensor2 \<Rightarrow> bool
     \<Rightarrow> error + (tensor2 \<times> tensor2 \<times> nat list)" where
  "gather_embeddings_and_labels pgroup image_embeddings text_embeddings backprop_in_gather =
     (case pgroup of
        None \<Rightarrow>
          Inr (image_embeddings, text_embeddings, arange (size0 image_embeddings))
      | Some pg \<Rightarrow>
          (let local_batch_size = size0 image_embeddings;
               ws = world_size pg;
               (img_embeddings_all_gpus, text_embeddings_all_gpus) =
                 (if backprop_in_gather
                  then (all_gather_with_backprop pg (peer_images pg) image_embeddings,
                        all_gather_with_backprop pg (peer_texts pg) text_embeddings)
                  else
                    (let text_bufs = map (\<lambda>_. zeros_like text_embeddings) [0..<ws];
                         img_bufs = map (\<lambda>_. zeros_like image_embeddings) [0..<ws]
                     in (all_gather_no_backprop pg (peer_images pg) img_bufs image_embeddings,
                         all_gather_no_backprop pg (peer_texts pg) text_bufs text_embeddings)));
               labels = map (\<lambda>i. local_batch_size * rank pg + i) (arange local_batch_size)
           in case cat img_embeddings_all_gpus of
                Inl e \<Rightarrow> Inl e
              | Inr gi \<Rightarrow>
                  (case cat text_embeddings_all_gpus of
                     Inl e \<Rightarrow> Inl e
                   | Inr gt \<Rightarrow> Inr (gi, gt, labels))))"

text \<open>Lines 119 to 122: the optional mask, applied to both logit matrices and the labels.\<close>

definition apply_mask ::
  "bool list option \<Rightarrow> tensor2 \<Rightarrow> tensor2 \<Rightarrow> nat list
     \<Rightarrow> error + (tensor2 \<times> tensor2 \<times> nat list)" where
  "apply_mask msk logits_per_image logits_per_text labels =
     (case msk of
        None \<Rightarrow> Inr (logits_per_image, logits_per_text, labels)
      | Some m \<Rightarrow>
          (case index_mask logits_per_image m of
             Inl e \<Rightarrow> Inl e
           | Inr li \<Rightarrow>
               (case index_mask logits_per_text m of
                  Inl e \<Rightarrow> Inl e
                | Inr lt \<Rightarrow>
                    (case index_mask1 labels m of
                       Inl e \<Rightarrow> Inl e
                     | Inr lb \<Rightarrow> Inr (li, lt, lb)))))"

text \<open>
  The functional entry point. Its \<open>logit_scale\<close> is a mutable parameter object: the
  function returns, beside its result, the value the parameter holds when it returns.
\<close>

definition contrastive_loss_with_temperature ::
  "process_group option \<Rightarrow> tensor2 \<Rightarrow> tensor2 \<Rightarrow> real \<Rightarrow> bool list option \<Rightarrow> bool
     \<Rightarrow> (error + ContrastiveLossOutput) \<times> real" where
  "contrastive_loss_with_temperature pgroup image_embeddings text_embeddings logit_scale
       msk backprop_in_gather =
     (let temperature = exp logit_scale in
      (case gather_embeddings_and_labels pgroup image_embeddings text_embeddings
              backprop_in_gather of
         Inl e \<Rightarrow> Inl e
       | Inr (img_embeddings_all_gpus, text_embeddings_all_gpus, labels) \<Rightarrow>
      (case matmul image_embeddings (transpose01 text_embeddings_all_gpus) of
         Inl e \<Rightarrow> Inl e
       | Inr mi \<Rightarrow>
      (case matmul text_embeddings (transpose01 img_embeddings_all_gpus) of
         Inl e \<Rightarrow> Inl e
       | Inr mt \<Rightarrow>
      (case apply_mask msk (mul_scalar mi temperature) (mul_scalar mt temperature) labels of
         Inl e \<Rightarrow> Inl e
       | Inr (logits_per_image, logits_per_text, labels') \<Rightarrow>
      (case cross_entropy logits_per_image labels' of
         Inl e \<Rightarrow> Inl e
       | Inr loss_i \<Rightarrow>
      (case cross_entropy logits_per_text labels' of
         Inl e \<Rightarrow> Inl e
       | Inr loss_t \<Rightarrow>
           Inr \<lparr>od_items = [],
                loss = div_scalar (add_scalar loss_i loss_t) 2,
                image_logits = logits_per_image,
                text_logits = logits_per_text,
                image_loss = loss_i,
                text_loss = loss_t\<rparr>)))))),
      logit_scale)"

section \<open>The module\<close>

record ContrastiveLossWithTemperature =
  logit_scale :: real

text \<open>\<^verbatim>\<open>x.clamp_(lo, hi)\<close>\<close>

definition clamp_inplace :: "real \<Rightarrow> real \<Rightarrow> real \<Rightarrow> real" where
  "clamp_inplace x lo hi = min (max x lo) hi"

text \<open>
  The constructor takes a float, which it wraps, or a parameter, which it adopts. A
  parameter is modelled by the value it holds: sharing one parameter object between
  modules is outside this development.
\<close>

datatype logit_scale_arg = Float real | Parameter real

definition DEFAULT_LOGIT_SCALE :: logit_scale_arg where
  "DEFAULT_LOGIT_SCALE = Parameter (ln (1 / (7 / 100)) * 1)"

fun init :: "logit_scale_arg \<Rightarrow> ContrastiveLossWithTemperature" where
  "init (Parameter p) = \<lparr>logit_scale = p\<rparr>"
| "init (Float x) = \<lparr>logit_scale = x * 1\<rparr>"

definition forward ::
  "process_group option \<Rightarrow> ContrastiveLossWithTemperature \<Rightarrow> tensor2 \<Rightarrow> tensor2 \<Rightarrow> bool
     \<Rightarrow> (error + scalar) \<times> ContrastiveLossWithTemperature" where
  "forward pgroup self image_embeddings text_embeddings backprop_in_gather =
     (let self1 = self\<lparr>logit_scale := clamp_inplace (logit_scale self) 0 (46052 / 10000)\<rparr>;
          (res, ls) = contrastive_loss_with_temperature pgroup image_embeddings text_embeddings
                        (logit_scale self1) None backprop_in_gather
      in (case res of Inl e \<Rightarrow> Inl e | Inr out \<Rightarrow> Inr (loss out),
          self1\<lparr>logit_scale := ls\<rparr>))"

text \<open>
  Swapping the two modalities on every worker: the first collective then carries the
  texts of the peers and the second their images.
\<close>

definition swap_modalities :: "process_group \<Rightarrow> process_group" where
  "swap_modalities pg = pg\<lparr>peer_images := peer_texts pg, peer_texts := peer_images pg\<rparr>"

text \<open>
  Iterating over the output object, \<^verbatim>\<open>iter(out)\<close>, goes through the keys of the
  inherited mapping.
\<close>

definition iter_keys :: "ContrastiveLossOutput \<Rightarrow> string list" where
  "iter_keys out = map fst (od_items out)"

text \<open>The number of local samples that take part in the loss.\<close>

definition kept_rows :: "bool list option \<Rightarrow> tensor2 \<Rightarrow> nat" where
  "kept_rows msk image_embeddings =
     (case msk of None \<Rightarrow> size0 image_embeddings | Some m \<Rightarrow> count_list m True)"

section \<open>Worked inputs\<close>

text \<open>
  A batch of one sample, a batch of two samples with a mask that keeps the first, and
  a group of two workers seen from rank 1, with the outputs the loss has on them.
\<close>

definition one_row :: tensor2 where
  "one_row = \<lparr>ncols = 1, rows = [[1]]\<rparr>"

definition img2 :: tensor2 where
  "img2 = \<lparr>ncols = 1, rows = [[1], [2]]\<rparr>"

definition txt2 :: tensor2 where
  "txt2 = \<lparr>ncols = 1, rows = [[1], [3]]\<rparr>"

definition two_workers :: process_group where
  "two_workers =
     \<lparr>world_size = 2, rank = 1,
      peer_images = (\<lambda>k. \<lparr>ncols = 1, rows = [[2]]\<rparr>),
      peer_texts = (\<lambda>k. \<lparr>ncols = 1, rows = [[3]]\<rparr>)\<rparr>"

definition masked_output :: ContrastiveLossOutput where
  "masked_output =
     \<lparr>od_items = [],
      loss = Val ((ln (exp 1 + exp 3) + ln (exp 1 + exp 2) - 2) / 2),
      image_logits = \<lparr>ncols = 2, rows = [[1, 3]]\<rparr>,
      text_logits = \<lparr>ncols = 2, rows = [[1, 2]]\<rparr>,
      image_loss = Val (ln (exp 1 + exp 3) - 1),
      text_loss = Val (ln (exp 1 + exp 2) - 1)\<rparr>"

definition two_workers_output :: ContrastiveLossOutput where
  "two_workers_output =
     \<lparr>od_items = [],
      loss = Val ((ln (exp 3 + exp 1) + ln (exp 2 + exp 1) - 2) / 2),
      image_logits = \<lparr>ncols = 2, rows = [[3, 1]]\<rparr>,
      text_logits = \<lparr>ncols = 2, rows = [[2, 1]]\<rparr>,
      image_loss = Val (ln (exp 3 + exp 1) - 1),
      text_loss = Val (ln (exp 2 + exp 1) - 1)\<rparr>"

definition unclamped_output :: ContrastiveLossOutput where
  "unclamped_output =
     \<lparr>od_items = [], loss = Val 0,
      image_logits = \<lparr>ncols = 1, rows = [[exp 10]]\<rparr>,
      text_logits = \<lparr>ncols = 1, rows = [[exp 10]]\<rparr>,
      image_loss = Val 0, text_loss = Val 0\<rparr>"

section \<open>The temperature clamp\<close>

text \<open>
  The upper bound of the clamp is the literal 4.6052. It lies above \<open>ln 100\<close>:
  a partial sum of the exponential series bounds \<open>exp 0.46052\<close> from below,
  and its tenth power is already above 100.
\<close>

lemma exp_partial_sum_le:
  fixes x :: real
  assumes "0 \<le> x"
  shows "(\<Sum>k<n. x ^ k / fact k) \<le> exp x"
proof -
  have s: "summable (\<lambda>k. x ^ k /\<^sub>R fact k)"
    by (rule summable_exp_generic)
  have "(\<Sum>k<n. x ^ k /\<^sub>R fact k) \<le> (\<Sum>k. x ^ k /\<^sub>R fact k)"
    using s by (rule sum_le_suminf) (use assms in auto)
  then show ?thesis
    by (simp add: exp_def divide_inverse mult.commute)
qed

lemma exp_series_8_bound:
  "(1584894 / 1000000 :: real) \<le> (\<Sum>k<8. (46052 / 100000) ^ k / fact k)"
  by (simp add: lessThan_Suc numeral_eq_Suc fact_numeral)

lemma tenth_power_bound: "(100::real) < (1584894 / 1000000) ^ 10"
  by (simp add: power_divide)

lemma ln_100_less_bound: "ln (100::real) < 46052 / 10000"
proof -
  have a: "(1584894 / 1000000 :: real) \<le> exp (46052 / 100000)"
    using exp_series_8_bound exp_partial_sum_le [of "46052 / 100000" 8] by linarith
  have "(1584894 / 1000000 :: real) ^ 10 \<le> exp (46052 / 100000) ^ 10"
    using a by (intro power_mono) auto
  also have "\<dots> = exp (46052 / 10000)"
    by (simp add: exp_of_nat_mult [symmetric])
  finally have "(100::real) < exp (46052 / 10000)"
    using tenth_power_bound by linarith
  then show ?thesis
    by (metis exp_less_cancel_iff exp_ln zero_less_numeral)
qed

lemma forward_logit_scale:
  "logit_scale (snd (forward pgroup self img txt bp)) =
     clamp_inplace (logit_scale self) 0 (46052 / 10000)"
  by (simp add: forward_def contrastive_loss_with_temperature_def Let_def)

lemma forward_clamp_examples:
  "logit_scale (snd (forward None (init (Float 10)) one_row one_row True)) = 46052 / 10000"
  "logit_scale (snd (forward None (init (Float (- 5))) one_row one_row True)) = 0"
  "logit_scale (snd (forward None (init (Float 2)) one_row one_row True)) = 2"
  by (simp_all add: forward_logit_scale clamp_inplace_def)

text \<open>
  What the clamp of line 187 does keep: the stored value is never below 0 and never
  above the literal 4.6052.
\<close>

lemma forward_logit_scale_range:
  "0 \<le> logit_scale (snd (forward pgroup self img txt bp))
   \<and> logit_scale (snd (forward pgroup self img txt bp)) \<le> 46052 / 10000"
  by (simp add: forward_logit_scale clamp_inplace_def)

text \<open>
  C1: after one call of \<open>forward\<close> the stored \<open>logit_scale\<close> is to lie within
  \<open>[0, ln 100]\<close>, as the comment of line 186 (4.6052 = ln(100)) and the docstring of the
  class (temperature clamped to [1, 100]) say too. The code misses the upper bound: a
  module initialised with \<open>logit_scale = 10\<close> holds the literal 4.6052 after one
  forward call, which is greater than \<open>ln 100\<close>.
\<close>

theorem forward_clamp_above_ln_100:
  "\<not> (logit_scale (snd (forward None (init (Float 10)) one_row one_row True)) \<le> ln 100)"
  using ln_100_less_bound by (simp add: forward_logit_scale clamp_inplace_def)

section \<open>What a successful call computed\<close>

lemma contrastive_loss_Inr_iff:
  "fst (contrastive_loss_with_temperature pgroup img txt ls msk bp) = Inr out \<longleftrightarrow>
   (\<exists>gi gt lbs mi mt li lt lbs' loss_i loss_t.
      gather_embeddings_and_labels pgroup img txt bp = Inr (gi, gt, lbs)
    \<and> matmul img (transpose01 gt) = Inr mi
    \<and> matmul txt (transpose01 gi) = Inr mt
    \<and> apply_mask msk (mul_scalar mi (exp ls)) (mul_scalar mt (exp ls)) lbs = Inr (li, lt, lbs')
    \<and> cross_entropy li lbs' = Inr loss_i
    \<and> cross_entropy lt lbs' = Inr loss_t
    \<and> out = \<lparr>od_items = [], loss = div_scalar (add_scalar loss_i loss_t) 2,
               image_logits = li, text_logits = lt,
               image_loss = loss_i, text_loss = loss_t\<rparr>)"
  by (auto simp: contrastive_loss_with_temperature_def Let_def split: sum.splits prod.splits)

lemma matmul_shape:
  "matmul a b = Inr m \<Longrightarrow> size0 m = size0 a \<and> ncols m = ncols b"
  by (auto simp: matmul_def size0_def split: if_splits)


lemma transpose01_ncols [simp]: "ncols (transpose01 t) = size0 t"
  by (simp add: transpose01_def size0_def)

lemma mul_scalar_shape [simp]:
  "size0 (mul_scalar t s) = size0 t" "ncols (mul_scalar t s) = ncols t"
  by (simp_all add: mul_scalar_def size0_def)

lemma mul_scalar_one [simp]: "mul_scalar t 1 = t"
  by (simp add: mul_scalar_def)


lemma cross_entropy_batch:
  "cross_entropy logits labels = Inr l \<Longrightarrow> size0 logits = length labels"
  by (auto simp: cross_entropy_def split: if_splits)

lemma cross_entropy_returns_iff:
  "(\<exists>l. cross_entropy t lbs = Inr l) \<longleftrightarrow>
     size0 t = length lbs \<and> list_all (\<lambda>l. l < ncols t) lbs"
  by (auto simp: cross_entropy_def)

lemma gather_labels_length:
  "gather_embeddings_and_labels pgroup img txt bp = Inr (gi, gt, lbs) \<Longrightarrow>
   length lbs = size0 img"
  by (auto simp: gather_embeddings_and_labels_def arange_def Let_def
      split: option.splits sum.splits if_splits prod.splits)

lemma add_scalar_commute: "add_scalar a b = add_scalar b a"
  by (cases a; cases b) simp_all

subsection \<open>Boolean masks\<close>

lemma masked_map:
  "map snd (filter fst (zip m (map f xs))) = map f (map snd (filter fst (zip m xs)))"
  by (induction m xs rule: list_induct2') auto

lemma masked_eq_nths:
  "length m = length xs \<Longrightarrow>
   map snd (filter fst (zip m xs)) = nths xs {i. i < length m \<and> m ! i}"
proof (induction m xs rule: list_induct2)
  case Nil
  then show ?case by simp
next
  case (Cons b m x xs)
  have "{j. Suc j \<in> {i. i < length (b # m) \<and> (b # m) ! i}} = {i. i < length m \<and> m ! i}"
    by auto
  with Cons show ?case by (simp add: nths_Cons)
qed

lemma masked_length:
  "length m = length xs \<Longrightarrow> length (filter fst (zip m xs)) = count_list m True"
  by (induction m xs rule: list_induct2) auto

lemma index_mask1_Inr:
  "index_mask1 xs m = Inr ys \<Longrightarrow>
   length m = length xs \<and> ys = nths xs {i. i < length m \<and> m ! i}
   \<and> length ys = count_list m True"
  using masked_eq_nths [of m xs] masked_length [of m xs]
  by (auto simp: index_mask1_def split: if_splits)

lemma index_mask_Inr:
  "index_mask t m = Inr u \<Longrightarrow>
   length m = size0 t \<and> ncols u = ncols t
   \<and> rows u = nths (rows t) {i. i < length m \<and> m ! i}
   \<and> size0 u = count_list m True"
  by (auto simp: index_mask_def size0_def split: sum.splits dest: index_mask1_Inr)

lemma index_mask_mul_scalar:
  "index_mask (mul_scalar t s) m =
     (case index_mask t m of Inl e \<Rightarrow> Inl e | Inr u \<Rightarrow> Inr (mul_scalar u s))"
  by (simp add: index_mask_def index_mask1_def mul_scalar_def masked_map)

lemma apply_mask_mul_scalar:
  assumes "apply_mask msk (mul_scalar mi s) (mul_scalar mt s) lbs = Inr (li, lt, lbs')"
  shows "\<exists>li0 lt0. apply_mask msk mi mt lbs = Inr (li0, lt0, lbs')
            \<and> li = mul_scalar li0 s \<and> lt = mul_scalar lt0 s"
  using assms
  by (auto simp: apply_mask_def index_mask_mul_scalar split: option.splits sum.splits)

lemma apply_mask_swap:
  "apply_mask msk li lt lbs = Inr (li', lt', lbs') \<Longrightarrow>
   apply_mask msk lt li lbs = Inr (lt', li', lbs')"
  by (auto simp: apply_mask_def split: option.splits sum.splits)

lemma apply_mask_batch:
  assumes "apply_mask msk li lt lbs = Inr (li', lt', lbs')"
    and "cross_entropy li' lbs' = Inr a" and "cross_entropy lt' lbs' = Inr b"
    and "length lbs = size0 li"
  shows "size0 lt = size0 li"
proof (cases msk)
  case None
  with assms show ?thesis
    by (auto simp: apply_mask_def dest: cross_entropy_batch)
next
  case (Some m)
  with assms(1) have "length m = size0 li" "length m = size0 lt"
    by (auto simp: apply_mask_def index_mask_def index_mask1_def size0_def
        split: sum.splits if_splits)
  then show ?thesis by simp
qed

subsection \<open>The two gathers\<close>

lemma fill_buffers:
  "length bufs = length pieces \<Longrightarrow> map (\<lambda>(buf, piece). piece) (zip bufs pieces) = pieces"
  by (induction bufs pieces rule: list_induct2) auto

lemma all_gather_variants_agree:
  "all_gather_no_backprop pg peers (map (\<lambda>_. zeros_like x) [0..<world_size pg]) x =
   all_gather_with_backprop pg peers x"
  by (simp add: all_gather_no_backprop_def all_gather_with_backprop_def gathered_pieces_def
      fill_buffers)

lemma gather_backprop_irrelevant:
  "gather_embeddings_and_labels pgroup img txt False =
   gather_embeddings_and_labels pgroup img txt True"
  by (simp add: gather_embeddings_and_labels_def all_gather_variants_agree Let_def
      split: option.splits cong: sum.case_cong)

lemma cat_uniform:
  assumes "ts \<noteq> []" and "\<forall>u\<in>set ts. ncols u = c"
  shows "cat ts = Inr \<lparr>ncols = c, rows = concat (map rows ts)\<rparr>"
  using assms by (cases ts) (auto simp: cat_def list_all_iff)

lemma length_concat_uniform:
  "\<forall>xs\<in>set xss. length xs = B \<Longrightarrow> length (concat xss) = length xss * B"
  by (induction xss) auto

lemma nth_concat_uniform:
  "\<forall>xs\<in>set xss. length xs = B \<Longrightarrow> k < length xss \<Longrightarrow> i < B \<Longrightarrow>
   concat xss ! (k * B + i) = xss ! k ! i"
proof (induction xss arbitrary: k)
  case Nil
  then show ?case by simp
next
  case (Cons xs xss)
  show ?case
  proof (cases k)
    case 0
    with Cons.prems show ?thesis by (simp add: nth_append)
  next
    case (Suc k')
    have "length xs = B" using Cons.prems(1) by simp
    then have "(xs @ concat xss) ! (B + (k' * B + i)) = concat xss ! (k' * B + i)"
      by (metis nth_append_length_plus)
    moreover have "concat xss ! (k' * B + i) = xss ! k' ! i"
      using Cons.IH [of k'] Cons.prems Suc by simp
    ultimately show ?thesis using Suc by (simp add: add.assoc)
  qed
qed

lemma labels_interval: "map (\<lambda>i. B * r + i) [0..<B] = [r * B..<r * B + B]"
  using map_add_upt [of "B * r" B] by (simp add: add.commute mult.commute)

lemma gather_swap:
  assumes "gather_embeddings_and_labels pgroup img txt bp = Inr (gi, gt, lbs)"
    and "size0 txt = size0 img"
  shows "gather_embeddings_and_labels (map_option swap_modalities pgroup) txt img bp =
     Inr (gt, gi, lbs)"
proof (cases pgroup)
  case None
  with assms show ?thesis
    by (auto simp: gather_embeddings_and_labels_def)
next
  case (Some pg)
  have "gather_embeddings_and_labels (Some pg) img txt True = Inr (gi, gt, lbs)"
    using assms(1) gather_backprop_irrelevant [of pgroup img "txt"]
    by (cases bp) (simp_all add: Some)
  then have "gather_embeddings_and_labels (Some (swap_modalities pg)) txt img True =
      Inr (gt, gi, lbs)"
    using assms(2)
    by (auto simp: gather_embeddings_and_labels_def swap_modalities_def Let_def
        all_gather_with_backprop_def gathered_pieces_def split: sum.splits)
  then show ?thesis
    using gather_backprop_irrelevant [of "Some (swap_modalities pg)" "txt" img]
    by (cases bp) (simp_all add: Some)
qed

subsection \<open>Matrix products\<close>


subsection \<open>The worked inputs, evaluated\<close>

lemmas eval_defs = contrastive_loss_with_temperature_def gather_embeddings_and_labels_def
  arange_def size0_def matmul_def transpose01_def mul_scalar_def apply_mask_def
  cross_entropy_def nll_row_def index_mask_def index_mask1_def cat_def
  all_gather_with_backprop_def all_gather_no_backprop_def gathered_pieces_def zeros_like_def
  Let_def one_row_def img2_def txt2_def two_workers_def

lemma eval_masked:
  "fst (contrastive_loss_with_temperature None img2 txt2 0 (Some [True, False]) True) =
     Inr masked_output"
  by (simp add: eval_defs masked_output_def upt_rec)

lemma eval_two_workers:
  "fst (contrastive_loss_with_temperature (Some two_workers) one_row one_row 0 None False) =
     Inr two_workers_output"
  by (simp add: eval_defs two_workers_output_def upt_rec)


lemma eval_unclamped:
  "fst (contrastive_loss_with_temperature None one_row one_row 10 None True) =
     Inr unclamped_output"
  by (simp add: eval_defs unclamped_output_def upt_rec)

section \<open>The claims about the loss\<close>

text \<open>
  C2: whenever \<open>contrastive_loss_with_temperature\<close> returns, for any embeddings, mask,
  \<open>logit_scale\<close> and process group, its \<open>loss\<close> field is \<open>(image_loss + text_loss) / 2\<close>
  of the two per-direction losses it returns, and these are the cross-entropy losses
  of the two logit matrices it returns against one label vector.
\<close>

theorem loss_is_average:
  assumes "fst (contrastive_loss_with_temperature pgroup img txt ls msk bp) = Inr out"
  shows "loss out = div_scalar (add_scalar (image_loss out) (text_loss out)) 2
       \<and> (\<exists>lbs. cross_entropy (image_logits out) lbs = Inr (image_loss out)
               \<and> cross_entropy (text_logits out) lbs = Inr (text_loss out))"
  using assms unfolding contrastive_loss_Inr_iff by auto

theorem loss_is_average_witness:
  "fst (contrastive_loss_with_temperature None img2 txt2 0 (Some [True, False]) True) =
     Inr masked_output
   \<and> loss masked_output =
       div_scalar (add_scalar (image_loss masked_output) (text_loss masked_output)) 2
   \<and> (\<exists>lbs. cross_entropy (image_logits masked_output) lbs = Inr (image_loss masked_output)
           \<and> cross_entropy (text_logits masked_output) lbs = Inr (text_loss masked_output))"
  by (rule conjI [OF eval_masked loss_is_average [OF eval_masked]])

text \<open>
  C3: with no process group (a single worker), \<open>_gather_embeddings_and_labels\<close> returns
  the two embedding batches it was given, unchanged, and the labels
  \<open>[0, 1, ..., N - 1]\<close> for a local batch of \<open>N\<close> rows.
\<close>

theorem gather_single_worker:
  "gather_embeddings_and_labels None img txt bp = Inr (img, txt, [0..<size0 img])"
  by (simp add: gather_embeddings_and_labels_def arange_def)

text \<open>
  C4: in a group of \<open>W\<close> workers whose batches all have \<open>B\<close> rows (and one embedding
  width per modality), \<open>_gather_embeddings_and_labels\<close> returns at rank \<open>r\<close> global
  image and text arrays of \<open>W * B\<close> rows, the concatenation of the workers' pieces in
  ascending rank order (row \<open>k * B + i\<close> is row \<open>i\<close> of rank \<open>k\<close>), and the labels
  \<open>[r * B, ..., r * B + B - 1]\<close>.
\<close>

theorem gather_distributed:
  assumes r: "rank pg < world_size pg"
    and b: "size0 img = B" "size0 txt = B"
    and hi: "\<forall>k<world_size pg. k \<noteq> rank pg \<longrightarrow>
               size0 (peer_images pg k) = B \<and> ncols (peer_images pg k) = ncols img"
    and ht: "\<forall>k<world_size pg. k \<noteq> rank pg \<longrightarrow>
               size0 (peer_texts pg k) = B \<and> ncols (peer_texts pg k) = ncols txt"
  shows "\<exists>gi gt.
      gather_embeddings_and_labels (Some pg) img txt bp =
        Inr (gi, gt, [rank pg * B..<rank pg * B + B])
    \<and> size0 gi = world_size pg * B \<and> size0 gt = world_size pg * B
    \<and> rows gi = concat (map (\<lambda>k. rows (if k = rank pg then img else peer_images pg k))
                          [0..<world_size pg])
    \<and> rows gt = concat (map (\<lambda>k. rows (if k = rank pg then txt else peer_texts pg k))
                          [0..<world_size pg])
    \<and> (\<forall>k<world_size pg. \<forall>i<B.
          rows gi ! (k * B + i) = rows (if k = rank pg then img else peer_images pg k) ! i
        \<and> rows gt ! (k * B + i) = rows (if k = rank pg then txt else peer_texts pg k) ! i)"
proof -
  let ?W = "world_size pg"
  let ?pimg = "gathered_pieces pg (peer_images pg) img"
  let ?ptxt = "gathered_pieces pg (peer_texts pg) txt"
  let ?gi = "\<lparr>ncols = ncols img, rows = concat (map rows ?pimg)\<rparr>"
  let ?gt = "\<lparr>ncols = ncols txt, rows = concat (map rows ?ptxt)\<rparr>"
  have ne: "?pimg \<noteq> []" "?ptxt \<noteq> []"
    using r by (auto simp: gathered_pieces_def)
  have "\<forall>u\<in>set ?pimg. ncols u = ncols img" "\<forall>u\<in>set ?ptxt. ncols u = ncols txt"
    using hi ht by (auto simp: gathered_pieces_def)
  then have c: "cat ?pimg = Inr ?gi" "cat ?ptxt = Inr ?gt"
    using ne by (simp_all add: cat_uniform)
  have "gather_embeddings_and_labels (Some pg) img txt True =
      Inr (?gi, ?gt, [rank pg * B..<rank pg * B + B])"
    using c b labels_interval [of B "rank pg"]
    by (simp add: gather_embeddings_and_labels_def all_gather_with_backprop_def arange_def)
  then have g: "gather_embeddings_and_labels (Some pg) img txt bp =
      Inr (?gi, ?gt, [rank pg * B..<rank pg * B + B])"
    using gather_backprop_irrelevant [of "Some pg" img "txt"] by (cases bp) simp_all
  have li: "\<forall>xs\<in>set (map rows ?pimg). length xs = B"
    and lt: "\<forall>xs\<in>set (map rows ?ptxt). length xs = B"
    using hi ht b by (auto simp: gathered_pieces_def size0_def)
  have si: "size0 ?gi = ?W * B" and st: "size0 ?gt = ?W * B"
    using length_concat_uniform [OF li] length_concat_uniform [OF lt]
    by (simp_all add: size0_def gathered_pieces_def)
  have ri: "rows ?gi = concat (map (\<lambda>k. rows (if k = rank pg then img else peer_images pg k))
                          [0..<?W])"
    and rt: "rows ?gt = concat (map (\<lambda>k. rows (if k = rank pg then txt else peer_texts pg k))
                          [0..<?W])"
    by (simp_all add: gathered_pieces_def comp_def)
  have ni: "\<forall>k<?W. \<forall>i<B.
          rows ?gi ! (k * B + i) = rows (if k = rank pg then img else peer_images pg k) ! i
        \<and> rows ?gt ! (k * B + i) = rows (if k = rank pg then txt else peer_texts pg k) ! i"
  proof (intro allI impI)
    fix k i assume k: "k < ?W" and i: "i < B"
    have "concat (map rows ?pimg) ! (k * B + i) = map rows ?pimg ! k ! i"
      using k i by (intro nth_concat_uniform [OF li]) (simp add: gathered_pieces_def)
    moreover have "concat (map rows ?ptxt) ! (k * B + i) = map rows ?ptxt ! k ! i"
      using k i by (intro nth_concat_uniform [OF lt]) (simp add: gathered_pieces_def)
    ultimately show "rows ?gi ! (k * B + i) =
          rows (if k = rank pg then img else peer_images pg k) ! i
        \<and> rows ?gt ! (k * B + i) = rows (if k = rank pg then txt else peer_texts pg k) ! i"
      using k by (simp add: gathered_pieces_def)
  qed
  show ?thesis
    using g si st ri rt ni by blast
qed

theorem gather_distributed_witness:
  "rank two_workers < world_size two_workers
   \<and> size0 one_row = 1
   \<and> (\<exists>gi gt.
        gather_embeddings_and_labels (Some two_workers) one_row one_row False =
          Inr (gi, gt, [1])
      \<and> size0 gi = 2 \<and> size0 gt = 2
      \<and> rows gi = [[2], [1]] \<and> rows gt = [[3], [1]]
      \<and> rows gi ! 1 = rows one_row ! 0 \<and> rows gt ! 1 = rows one_row ! 0)"
proof -
  have h: "rank two_workers < world_size two_workers" "size0 one_row = 1"
    "\<forall>k<world_size two_workers. k \<noteq> rank two_workers \<longrightarrow>
       size0 (peer_images two_workers k) = 1
       \<and> ncols (peer_images two_workers k) = ncols one_row"
    "\<forall>k<world_size two_workers. k \<noteq> rank two_workers \<longrightarrow>
       size0 (peer_texts two_workers k) = 1
       \<and> ncols (peer_texts two_workers k) = ncols one_row"
    by (simp_all add: two_workers_def one_row_def size0_def)
  from gather_distributed [OF h(1) h(2) h(2) h(3) h(4), of False]
  obtain gi gt where
    g: "gather_embeddings_and_labels (Some two_workers) one_row one_row False =
          Inr (gi, gt, [rank two_workers * 1..<rank two_workers * 1 + 1])"
    and s: "size0 gi = world_size two_workers * 1" "size0 gt = world_size two_workers * 1"
    and ri: "rows gi = concat (map (\<lambda>k. rows (if k = rank two_workers then one_row
                                                else peer_images two_workers k))
                               [0..<world_size two_workers])"
    and rt: "rows gt = concat (map (\<lambda>k. rows (if k = rank two_workers then one_row
                                                else peer_texts two_workers k))
                               [0..<world_size two_workers])"
    by blast
  have "rows gi = [[2], [1]]" "rows gt = [[3], [1]]"
    using ri rt by (simp_all add: two_workers_def one_row_def upt_rec)
  moreover have "[rank two_workers * 1..<rank two_workers * 1 + 1] = [1]"
    by (simp add: two_workers_def upt_rec)
  ultimately show ?thesis
    using h(1) h(2) g s by (auto simp: two_workers_def one_row_def)
qed





text \<open>
  C7: when a call returns, the call with the image and text embeddings swapped (on
  every worker of the group, if there is one) returns too, with the same averaged
  loss: the two per-direction losses and the two logit matrices change places.
\<close>

theorem swap_modalities_same_loss:
  assumes "fst (contrastive_loss_with_temperature pgroup img txt ls msk bp) = Inr out"
  shows "\<exists>out'. fst (contrastive_loss_with_temperature (map_option swap_modalities pgroup)
                      txt img ls msk bp) = Inr out'
           \<and> loss out' = loss out
           \<and> image_loss out' = text_loss out \<and> text_loss out' = image_loss out
           \<and> image_logits out' = text_logits out \<and> text_logits out' = image_logits out"
proof -
  from assms obtain gi gt lbs mi mt li lt lbs' loss_i loss_t where
    g: "gather_embeddings_and_labels pgroup img txt bp = Inr (gi, gt, lbs)"
    and mi: "matmul img (transpose01 gt) = Inr mi"
    and mt: "matmul txt (transpose01 gi) = Inr mt"
    and am: "apply_mask msk (mul_scalar mi (exp ls)) (mul_scalar mt (exp ls)) lbs
               = Inr (li, lt, lbs')"
    and ci: "cross_entropy li lbs' = Inr loss_i"
    and ct: "cross_entropy lt lbs' = Inr loss_t"
    and out: "out = \<lparr>od_items = [], loss = div_scalar (add_scalar loss_i loss_t) 2,
               image_logits = li, text_logits = lt,
               image_loss = loss_i, text_loss = loss_t\<rparr>"
    unfolding contrastive_loss_Inr_iff by blast
  have "length lbs = size0 (mul_scalar mi (exp ls))"
    using gather_labels_length [OF g] matmul_shape [OF mi] by simp
  from apply_mask_batch [OF am ci ct this]
  have eq: "size0 txt = size0 img"
    using matmul_shape [OF mi] matmul_shape [OF mt] by simp
  let ?out' = "\<lparr>od_items = [], loss = div_scalar (add_scalar loss_t loss_i) 2,
               image_logits = lt, text_logits = li,
               image_loss = loss_t, text_loss = loss_i\<rparr>"
  have "fst (contrastive_loss_with_temperature (map_option swap_modalities pgroup)
               txt img ls msk bp) = Inr ?out'"
    unfolding contrastive_loss_Inr_iff
    using gather_swap [OF g eq] mt mi apply_mask_swap [OF am] ct ci by blast
  then show ?thesis
    using out by (simp add: add_scalar_commute)
qed

theorem swap_modalities_same_loss_witness:
  "fst (contrastive_loss_with_temperature (Some two_workers) one_row one_row 0 None False) =
     Inr two_workers_output
   \<and> (\<exists>out'. fst (contrastive_loss_with_temperature
                   (map_option swap_modalities (Some two_workers))
                   one_row one_row 0 None False) = Inr out'
           \<and> loss out' = loss two_workers_output
           \<and> image_loss out' = text_loss two_workers_output
           \<and> text_loss out' = image_loss two_workers_output
           \<and> image_logits out' = text_logits two_workers_output
           \<and> text_logits out' = image_logits two_workers_output)"
  by (rule conjI [OF eval_two_workers swap_modalities_same_loss [OF eval_two_workers]])

text \<open>
  C8: for the same inputs and process group, the gathered embeddings and labels and
  the whole result of \<open>contrastive_loss_with_temperature\<close> (logits and losses, or the
  exception) are the same with \<open>backprop_in_gather=False\<close> as with
  \<open>backprop_in_gather=True\<close>. Gradients are not part of the model.
\<close>

theorem backprop_in_gather_same_forward_values:
  "gather_embeddings_and_labels pgroup img txt False =
     gather_embeddings_and_labels pgroup img txt True
   \<and> contrastive_loss_with_temperature pgroup img txt ls msk False =
     contrastive_loss_with_temperature pgroup img txt ls msk True"
  by (simp add: contrastive_loss_with_temperature_def gather_backprop_irrelevant)

text \<open>
  C9, as the code has it by design: the value a call returns has exactly the five
  fields \<open>loss\<close>, \<open>image_logits\<close>, \<open>text_logits\<close>, \<open>image_loss\<close>,
  \<open>text_loss\<close>: the averaged loss, the two logit matrices (one row per local sample
  the mask keeps, all of them without a mask, and one column per global sample) and
  the two per-direction cross-entropy losses. Nothing is said here about iterating
  over the object.
\<close>

theorem output_bundle:
  assumes "fst (contrastive_loss_with_temperature pgroup img txt ls msk bp) = Inr out"
  shows "loss out = div_scalar (add_scalar (image_loss out) (text_loss out)) 2
    \<and> size0 (image_logits out) = kept_rows msk img
    \<and> size0 (text_logits out) = kept_rows msk img
    \<and> (\<exists>gi gt lbs. gather_embeddings_and_labels pgroup img txt bp = Inr (gi, gt, lbs)
          \<and> ncols (image_logits out) = size0 gt
          \<and> ncols (text_logits out) = size0 gi)
    \<and> (\<exists>lbs. length lbs = kept_rows msk img
          \<and> cross_entropy (image_logits out) lbs = Inr (image_loss out)
          \<and> cross_entropy (text_logits out) lbs = Inr (text_loss out))"
proof -
  from assms obtain gi gt lbs mi mt li lt lbs' loss_i loss_t where
    g: "gather_embeddings_and_labels pgroup img txt bp = Inr (gi, gt, lbs)"
    and mi: "matmul img (transpose01 gt) = Inr mi"
    and mt: "matmul txt (transpose01 gi) = Inr mt"
    and am: "apply_mask msk (mul_scalar mi (exp ls)) (mul_scalar mt (exp ls)) lbs
               = Inr (li, lt, lbs')"
    and ci: "cross_entropy li lbs' = Inr loss_i"
    and ct: "cross_entropy lt lbs' = Inr loss_t"
    and out: "out = \<lparr>od_items = [], loss = div_scalar (add_scalar loss_i loss_t) 2,
               image_logits = li, text_logits = lt,
               image_loss = loss_i, text_loss = loss_t\<rparr>"
    unfolding contrastive_loss_Inr_iff by blast
  have sh: "size0 li = kept_rows msk img \<and> ncols li = size0 gt \<and> ncols lt = size0 gi"
  proof (cases msk)
    case None
    with am matmul_shape [OF mi] matmul_shape [OF mt] show ?thesis
      by (auto simp: apply_mask_def kept_rows_def)
  next
    case (Some m)
    with am have "index_mask (mul_scalar mi (exp ls)) m = Inr li"
      and "index_mask (mul_scalar mt (exp ls)) m = Inr lt"
      by (auto simp: apply_mask_def split: sum.splits)
    from index_mask_Inr [OF this(1)] index_mask_Inr [OF this(2)]
    show ?thesis
      using Some matmul_shape [OF mi] matmul_shape [OF mt] by (simp add: kept_rows_def)
  qed
  have "size0 lt = size0 li" "length lbs' = size0 li"
    using cross_entropy_batch [OF ci] cross_entropy_batch [OF ct] by simp_all
  then show ?thesis
    using g sh ci ct out by auto
qed

theorem output_bundle_witness:
  "fst (contrastive_loss_with_temperature None img2 txt2 0 (Some [True, False]) True) =
     Inr masked_output
   \<and> loss masked_output =
       div_scalar (add_scalar (image_loss masked_output) (text_loss masked_output)) 2
   \<and> size0 (image_logits masked_output) = kept_rows (Some [True, False]) img2
   \<and> size0 (text_logits masked_output) = kept_rows (Some [True, False]) img2
   \<and> kept_rows (Some [True, False]) img2 = 1"
  using eval_masked output_bundle [OF eval_masked] by (simp add: kept_rows_def)

text \<open>
  C9 as stated fails on a batch of two samples with the mask \<open>[True, False]\<close>: the
  returned logit matrices have one row each, not the two rows of the local batch.
\<close>

theorem output_logits_rows_follow_mask:
  "fst (contrastive_loss_with_temperature None img2 txt2 0 (Some [True, False]) True) =
     Inr masked_output
   \<and> size0 (image_logits masked_output) \<noteq> size0 img2
   \<and> size0 (text_logits masked_output) \<noteq> size0 img2"
  using eval_masked by (simp add: masked_output_def size0_def img2_def)

text \<open>
  C10: \<open>contrastive_loss_with_temperature\<close> leaves its \<open>logit_scale\<close> argument as it
  was, whatever its value, and uses it as it is: the logits of a call that returns are
  the logits at \<open>logit_scale = 0\<close> times \<open>exp logit_scale\<close>, with no clamp. The clamp
  is in \<open>forward\<close>, which calls the function on the clamped value and stores that
  value.
\<close>

theorem functional_uses_logit_scale_unclamped:
  "snd (contrastive_loss_with_temperature pgroup img txt ls msk bp) = ls
   \<and> (fst (contrastive_loss_with_temperature pgroup img txt ls msk bp) = Inr out \<longrightarrow>
        (\<exists>out0. fst (contrastive_loss_with_temperature pgroup img txt 0 msk bp) = Inr out0
           \<and> image_logits out = mul_scalar (image_logits out0) (exp ls)
           \<and> text_logits out = mul_scalar (text_logits out0) (exp ls)))
   \<and> fst (forward pgroup self img txt bp) =
        map_sum id loss (fst (contrastive_loss_with_temperature pgroup img txt
           (clamp_inplace (logit_scale self) 0 (46052 / 10000)) None bp))
   \<and> logit_scale (snd (forward pgroup self img txt bp)) =
        clamp_inplace (logit_scale self) 0 (46052 / 10000)"
proof (intro conjI impI)
  show "snd (contrastive_loss_with_temperature pgroup img txt ls msk bp) = ls"
    by (simp add: contrastive_loss_with_temperature_def)
next
  assume "fst (contrastive_loss_with_temperature pgroup img txt ls msk bp) = Inr out"
  then obtain gi gt lbs mi mt li lt lbs' loss_i loss_t where
    g: "gather_embeddings_and_labels pgroup img txt bp = Inr (gi, gt, lbs)"
    and mi: "matmul img (transpose01 gt) = Inr mi"
    and mt: "matmul txt (transpose01 gi) = Inr mt"
    and am: "apply_mask msk (mul_scalar mi (exp ls)) (mul_scalar mt (exp ls)) lbs
               = Inr (li, lt, lbs')"
    and ci: "cross_entropy li lbs' = Inr loss_i"
    and ct: "cross_entropy lt lbs' = Inr loss_t"
    and out: "out = \<lparr>od_items = [], loss = div_scalar (add_scalar loss_i loss_t) 2,
               image_logits = li, text_logits = lt,
               image_loss = loss_i, text_loss = loss_t\<rparr>"
    unfolding contrastive_loss_Inr_iff by blast
  from apply_mask_mul_scalar [OF am] obtain li0 lt0 where
    am0: "apply_mask msk mi mt lbs = Inr (li0, lt0, lbs')"
    and li: "li = mul_scalar li0 (exp ls)" and lt: "lt = mul_scalar lt0 (exp ls)"
    by blast
  have "\<exists>l. cross_entropy li0 lbs' = Inr l"
    using ci li by (metis cross_entropy_returns_iff mul_scalar_shape)
  then obtain a where a: "cross_entropy li0 lbs' = Inr a" ..
  have "\<exists>l. cross_entropy lt0 lbs' = Inr l"
    using ct lt by (metis cross_entropy_returns_iff mul_scalar_shape)
  then obtain b where b: "cross_entropy lt0 lbs' = Inr b" ..
  let ?out0 = "\<lparr>od_items = [], loss = div_scalar (add_scalar a b) 2,
               image_logits = li0, text_logits = lt0, image_loss = a, text_loss = b\<rparr>"
  have "fst (contrastive_loss_with_temperature pgroup img txt 0 msk bp) = Inr ?out0"
    unfolding contrastive_loss_Inr_iff using g mi mt am0 a b by simp
  then show "\<exists>out0. fst (contrastive_loss_with_temperature pgroup img txt 0 msk bp) = Inr out0
           \<and> image_logits out = mul_scalar (image_logits out0) (exp ls)
           \<and> text_logits out = mul_scalar (text_logits out0) (exp ls)"
    using out li lt by simp
next
  show "fst (forward pgroup self img txt bp) =
        map_sum id loss (fst (contrastive_loss_with_temperature pgroup img txt
           (clamp_inplace (logit_scale self) 0 (46052 / 10000)) None bp))"
    by (simp add: forward_def Let_def split: prod.splits sum.splits)
next
  show "logit_scale (snd (forward pgroup self img txt bp)) =
        clamp_inplace (logit_scale self) 0 (46052 / 10000)"
    by (rule forward_logit_scale)
qed

theorem functional_uses_logit_scale_unclamped_witness:
  "snd (contrastive_loss_with_temperature None one_row one_row 10 None True) = 10
   \<and> fst (contrastive_loss_with_temperature None one_row one_row 10 None True) =
       Inr unclamped_output
   \<and> (\<exists>out0. fst (contrastive_loss_with_temperature None one_row one_row 0 None True) =
                Inr out0
         \<and> image_logits unclamped_output = mul_scalar (image_logits out0) (exp 10)
         \<and> text_logits unclamped_output = mul_scalar (text_logits out0) (exp 10))
   \<and> rows (image_logits unclamped_output) = [[exp 10]]
   \<and> rows (image_logits unclamped_output) \<noteq> [[exp (46052 / 10000)]]
   \<and> logit_scale (snd (forward None (init (Float 10)) one_row one_row True)) = 46052 / 10000"
proof -
  note t = functional_uses_logit_scale_unclamped
    [of None one_row one_row 10 None True unclamped_output "init (Float 10)"]
  have a: "snd (contrastive_loss_with_temperature None one_row one_row 10 None True) = 10"
    using t by (rule conjunct1)
  have b: "\<exists>out0. fst (contrastive_loss_with_temperature None one_row one_row 0 None True) =
                Inr out0
         \<and> image_logits unclamped_output = mul_scalar (image_logits out0) (exp 10)
         \<and> text_logits unclamped_output = mul_scalar (text_logits out0) (exp 10)"
    using t [THEN conjunct2, THEN conjunct1] eval_unclamped by (rule mp)
  have c: "logit_scale (snd (forward None (init (Float 10)) one_row one_row True)) =
      46052 / 10000"
    using t [THEN conjunct2, THEN conjunct2, THEN conjunct2]
    by (simp add: clamp_inplace_def)
  have d: "rows (image_logits unclamped_output) = [[exp 10]]"
    "rows (image_logits unclamped_output) \<noteq> [[exp (46052 / 10000)]]"
    by (simp_all add: unclamped_output_def)
  show ?thesis
    using a b c d eval_unclamped by blast
qed

section \<open>Further properties\<close>

text \<open>
  A single worker's call returns whenever the shapes fit: both batches have the same
  number of rows and the same width, and the mask, if there is one, is as long as the
  batch.
\<close>

lemma masked_subset:
  "set (map snd (filter fst (zip m xs))) \<subseteq> set xs"
  by (induction m xs rule: list_induct2') auto

lemma single_worker_returns:
  assumes w: "ncols img = ncols txt" and n: "size0 img = size0 txt"
    and m: "case msk of None \<Rightarrow> True | Some m \<Rightarrow> length m = size0 img"
  shows "\<exists>out. fst (contrastive_loss_with_temperature None img txt ls msk bp) = Inr out"
proof -
  let ?N = "size0 img"
  obtain mi where mi: "matmul img (transpose01 txt) = Inr mi"
    using w by (simp add: matmul_def transpose01_def)
  obtain mt where mt: "matmul txt (transpose01 img) = Inr mt"
    using w by (simp add: matmul_def transpose01_def)
  have smi: "size0 mi = ?N" "ncols mi = ?N" and smt: "size0 mt = ?N" "ncols mt = ?N"
    using matmul_shape [OF mi] matmul_shape [OF mt] n by simp_all
  obtain li lt lbs' where
    am: "apply_mask msk (mul_scalar mi (exp ls)) (mul_scalar mt (exp ls)) [0..<?N] =
           Inr (li, lt, lbs')"
    and sh: "size0 li = length lbs'" "size0 lt = length lbs'"
      "ncols li = ?N" "ncols lt = ?N" "set lbs' \<subseteq> {0..<?N}"
  proof (cases msk)
    case None
    show ?thesis
      by (rule that [of "mul_scalar mi (exp ls)" "mul_scalar mt (exp ls)" "[0..<?N]"])
        (simp_all add: None apply_mask_def smi smt)
  next
    case (Some k)
    then have k: "length k = ?N" using m by simp
    let ?li = "(mul_scalar mi (exp ls))\<lparr>rows :=
                 map snd (filter fst (zip k (rows (mul_scalar mi (exp ls)))))\<rparr>"
    let ?lt = "(mul_scalar mt (exp ls))\<lparr>rows :=
                 map snd (filter fst (zip k (rows (mul_scalar mt (exp ls)))))\<rparr>"
    let ?lb = "map snd (filter fst (zip k [0..<?N]))"
    have ri: "length (rows (mul_scalar mi (exp ls))) = ?N"
      and rt: "length (rows (mul_scalar mt (exp ls))) = ?N"
      using smi smt by (simp_all add: size0_def mul_scalar_def)
    have "apply_mask msk (mul_scalar mi (exp ls)) (mul_scalar mt (exp ls)) [0..<?N] =
           Inr (?li, ?lt, ?lb)"
      using k ri rt by (simp add: Some apply_mask_def index_mask_def index_mask1_def)
    moreover have "size0 ?li = length ?lb" "size0 ?lt = length ?lb"
      using k ri rt by (simp_all add: size0_def masked_length)
    moreover have "ncols ?li = ?N" "ncols ?lt = ?N"
      using smi smt by simp_all
    moreover have "set ?lb \<subseteq> {0..<?N}"
      using masked_subset [of k "[0..<?N]"] by simp
    ultimately show ?thesis by (rule that)
  qed
  have "\<exists>l. cross_entropy li lbs' = Inr l" "\<exists>l. cross_entropy lt lbs' = Inr l"
    unfolding cross_entropy_returns_iff using sh by (auto simp: list_all_iff)
  then obtain a b where "cross_entropy li lbs' = Inr a" "cross_entropy lt lbs' = Inr b"
    by blast
  then show ?thesis
    unfolding contrastive_loss_Inr_iff
    using mi mt am by (auto simp: gather_embeddings_and_labels_def arange_def)
qed

text \<open>The logit matrices a call returns are rectangular: every row has the stated width.\<close>

lemma matmul_well_formed: "matmul a b = Inr m \<Longrightarrow> wf_tensor2 m"
  by (auto simp: matmul_def wf_tensor2_def list_all_iff split: if_splits)

lemma mul_scalar_well_formed: "wf_tensor2 t \<Longrightarrow> wf_tensor2 (mul_scalar t s)"
  by (auto simp: mul_scalar_def wf_tensor2_def list_all_iff)

lemma index_mask_well_formed: "wf_tensor2 t \<Longrightarrow> index_mask t m = Inr u \<Longrightarrow> wf_tensor2 u"
  by (fastforce simp: index_mask_def index_mask1_def wf_tensor2_def list_all_iff
      split: if_splits dest: set_zip_rightD)

lemma logits_well_formed:
  assumes "fst (contrastive_loss_with_temperature pgroup img txt ls msk bp) = Inr out"
  shows "wf_tensor2 (image_logits out) \<and> wf_tensor2 (text_logits out)"
proof -
  from assms obtain gi gt lbs mi mt li lt lbs' where
    mi: "matmul img (transpose01 gt) = Inr mi"
    and mt: "matmul txt (transpose01 gi) = Inr mt"
    and am: "apply_mask msk (mul_scalar mi (exp ls)) (mul_scalar mt (exp ls)) lbs
               = Inr (li, lt, lbs')"
    and out: "image_logits out = li" "text_logits out = lt"
    unfolding contrastive_loss_Inr_iff by auto
  have "wf_tensor2 (mul_scalar mi (exp ls))" "wf_tensor2 (mul_scalar mt (exp ls))"
    using matmul_well_formed [OF mi] matmul_well_formed [OF mt]
    by (simp_all add: mul_scalar_well_formed)
  then have "wf_tensor2 li \<and> wf_tensor2 lt"
    using am
    by (auto simp: apply_mask_def split: option.splits sum.splits
        dest: index_mask_well_formed)
  then show ?thesis using out by simp
qed

text \<open>
  The mapping inherited from \<^verbatim>\<open>OrderedDict\<close>: the class aims at mapping
  semantics, but the generated constructor never fills the mapping, so iterating over
  a returned object yields no key. This is the code as written, which no claim above
  relies on.
\<close>

lemma output_mapping_empty:
  "fst (contrastive_loss_with_temperature pgroup img txt ls msk bp) = Inr out \<Longrightarrow>
   iter_keys out = []"
  unfolding contrastive_loss_Inr_iff by (auto simp: iter_keys_def)

end
